theory Spec2Isabelle
  imports Complex_Main "HOL-Library.Stream" "HOL-Library.Multiset"
begin

text \<open>
  The server side of the competitive math quiz: the round state (\<open>StateManager\<close>), the
  lifecycle machine (\<open>StateMachineLogger\<close>), the question generator with its answer
  validation (\<open>QuestionGenerator\<close>) and the socket handler for \<open>submit-answer\<close>. Each
  JavaScript method is a function from its arguments and the object's state to its result
  and the new state; an exception is a value of the result.
\<close>

section \<open>JavaScript values that reach the quiz server\<close>

text \<open>
  Numbers are kept exact: a finite JavaScript number is modelled by the rational it
  denotes, next to the three special values. Rounding to IEEE doubles is outside this
  model: where a result hinges on a rounding error, as \<open>validate\<close> does for an answer at
  the very edge of its tolerance (\<open>1.0001\<close> against \<open>1\<close>), the runtime may decide otherwise.
  No statement below is about such a value.
\<close>

datatype jsnum = NaN | Fin rat | PosInf | NegInf

text \<open>
  An answer arrives over the socket as a string or a number, or is missing
  (\<open>null\<close>, \<open>undefined\<close>).
\<close>

datatype jsval = Null | Undefined | Str string | Num jsnum

datatype js_error = RangeError | TypeError | Error string

section \<open>StateManager (the round state)\<close>

datatype difficulty = easy | medium | hard

text \<open>
  The question object built by \<open>QuestionGenerator.generate\<close>. The field
  \<open>generatedAtISO\<close> is the ISO rendering of a clock reading; the reading itself is kept.
\<close>

record question =
  q_id :: string
  q_question :: string
  q_answer :: int
  q_operands :: "int \<times> int"
  q_operator :: string
  q_operatorName :: string
  q_difficulty :: difficulty
  q_generatedAt :: nat
  q_generatedAtISO :: nat

text \<open>
  A stored submission \<open>{answer, timestamp, timestampISO}\<close>; \<open>timestampISO\<close> is a
  function of \<open>timestamp\<close> and is not stored separately. An entry of the order array is
  \<open>{socketId, timestamp}\<close>.
\<close>

datatype submission = Submission (sub_answer: jsval) (sub_timestamp: int)

datatype order_entry = OrderEntry (entry_socketId: string) (entry_timestamp: int)

text \<open>
  A JavaScript \<open>Map\<close> keeps its entries in insertion order; \<open>set\<close> overwrites the value
  of a key that is present and appends a new key otherwise.
\<close>

type_synonym ('k, 'v) jsmap = "('k \<times> 'v) list"

fun Map_get :: "('k, 'v) jsmap \<Rightarrow> 'k \<Rightarrow> 'v option" where
  "Map_get [] k = None"
| "Map_get ((k', v) # m) k = (if k' = k then Some v else Map_get m k)"

definition Map_has :: "('k, 'v) jsmap \<Rightarrow> 'k \<Rightarrow> bool" where
  "Map_has m k = (Map_get m k \<noteq> None)"

fun Map_set :: "('k, 'v) jsmap \<Rightarrow> 'k \<Rightarrow> 'v \<Rightarrow> ('k, 'v) jsmap" where
  "Map_set [] k v = [(k, v)]"
| "Map_set ((k', v') # m) k v =
     (if k' = k then (k, v) # m else (k', v') # Map_set m k v)"

record StateManager =
  currentQuestion :: "question option"
  currentWinner :: "string option"
  isLocked :: bool
  submissions :: "(string, submission) jsmap"
  submissionOrder :: "order_entry list"
  GRACE_PERIOD_MS :: int

definition new_StateManager :: StateManager where
  "new_StateManager =
     \<lparr>currentQuestion = None, currentWinner = None, isLocked = False,
      submissions = [], submissionOrder = [], GRACE_PERIOD_MS = 100\<rparr>"

definition setQuestion :: "question \<Rightarrow> StateManager \<Rightarrow> StateManager" where
  "setQuestion q s =
     s\<lparr>currentQuestion := Some q, currentWinner := None, isLocked := False,
       submissions := [], submissionOrder := []\<rparr>"

definition getCurrentQuestion :: "StateManager \<Rightarrow> question option" where
  "getCurrentQuestion s = currentQuestion s"

definition hasSubmitted :: "string \<Rightarrow> StateManager \<Rightarrow> bool" where
  "hasSubmitted socketId s = Map_has (submissions s) socketId"

datatype reason = question_locked | already_submitted | no_question

datatype submission_result = Success int | Failure reason string

text \<open>
  \<open>new Date(timestamp).toISOString()\<close> throws a \<open>RangeError\<close> when the timestamp is not a
  time value, that is, outside \<open>\<plusminus>8.64e15\<close> milliseconds. Every reading of \<open>Date.now()\<close>
  is a time value.
\<close>

definition time_value :: "int \<Rightarrow> bool" where
  "time_value t = (\<bar>t\<bar> \<le> 8640000000000000)"

text \<open>
  The result is what the call returns or throws, paired with the state it leaves. The
  \<open>RangeError\<close> is raised while the submission object is built, before \<open>submissions.set\<close>.
\<close>

definition recordSubmission ::
  "string \<Rightarrow> jsval \<Rightarrow> int \<Rightarrow> StateManager \<Rightarrow> (js_error + submission_result) \<times> StateManager"
where
  "recordSubmission socketId answer timestamp s =
     (if isLocked s then
        (Inr (Failure question_locked ''This question already has a winner''), s)
      else if hasSubmitted socketId s then
        (Inr (Failure already_submitted
           ''You have already submitted an answer for this question''), s)
      else if currentQuestion s = None then
        (Inr (Failure no_question ''No active question to answer''), s)
      else if \<not> time_value timestamp then (Inl RangeError, s)
      else
        (Inr (Success timestamp),
         s\<lparr>submissions := Map_set (submissions s) socketId (Submission answer timestamp),
           submissionOrder := submissionOrder s @ [OrderEntry socketId timestamp]\<rparr>))"

definition attemptWin :: "string \<Rightarrow> bool \<Rightarrow> StateManager \<Rightarrow> bool \<times> StateManager" where
  "attemptWin socketId isCorrect s =
     (if isLocked s then (False, s)
      else if isCorrect then (True, s\<lparr>isLocked := True, currentWinner := Some socketId\<rparr>)
      else (False, s))"

definition getWinner :: "StateManager \<Rightarrow> string option" where
  "getWinner s = currentWinner s"

definition isQuestionLocked :: "StateManager \<Rightarrow> bool" where
  "isQuestionLocked s = isLocked s"

text \<open>
  \<open>Array.prototype.sort\<close> sorts the array in place and is stable; with the comparator
  \<open>a.timestamp - b.timestamp\<close> it is the stable sort by timestamp, which
  \<^const>\<open>sort_key\<close> (insertion from the right) computes. The array that is sorted is the
  field \<open>submissionOrder\<close> itself.
\<close>

definition sort_in_place :: "order_entry list \<Rightarrow> order_entry list" where
  "sort_in_place xs = sort_key entry_timestamp xs"

text \<open>
  An element of the result of \<open>getSubmissionsInOrder\<close>: the entry's \<open>socketId\<close> and
  \<open>timestamp\<close>, then the spread of the stored submission (absent when the map has none).
\<close>

datatype ordered_submission =
  OrderedSubmission (os_socketId: string) (os_timestamp: int) (os_answer: "jsval option")

definition spread_entry :: "(string, submission) jsmap \<Rightarrow> order_entry \<Rightarrow> ordered_submission" where
  "spread_entry m e =
     (case Map_get m (entry_socketId e) of
        None \<Rightarrow> OrderedSubmission (entry_socketId e) (entry_timestamp e) None
      | Some sub \<Rightarrow> OrderedSubmission (entry_socketId e) (sub_timestamp sub) (Some (sub_answer sub)))"

definition getSubmissionsInOrder :: "StateManager \<Rightarrow> ordered_submission list \<times> StateManager" where
  "getSubmissionsInOrder s =
     (let sorted = sort_in_place (submissionOrder s)
      in (map (spread_entry (submissions s)) sorted, s\<lparr>submissionOrder := sorted\<rparr>))"

definition getGracePeriodSubmissions :: "StateManager \<Rightarrow> order_entry list \<times> StateManager" where
  "getGracePeriodSubmissions s =
     (if length (submissionOrder s) = 0 then ([], s)
      else
        (let sorted = sort_in_place (submissionOrder s);
             firstTimestamp = entry_timestamp (hd sorted);
             gracePeriodEnd = firstTimestamp + GRACE_PERIOD_MS s
         in (filter (\<lambda>entry. entry_timestamp entry \<le> gracePeriodEnd) sorted,
             s\<lparr>submissionOrder := sorted\<rparr>)))"

definition getSubmission :: "string \<Rightarrow> StateManager \<Rightarrow> submission option" where
  "getSubmission socketId s = Map_get (submissions s) socketId"

definition reset :: "StateManager \<Rightarrow> StateManager" where
  "reset s =
     s\<lparr>currentQuestion := None, currentWinner := None, isLocked := False,
       submissions := [], submissionOrder := []\<rparr>"

definition setGracePeriod :: "int \<Rightarrow> StateManager \<Rightarrow> (js_error + unit) \<times> StateManager" where
  "setGracePeriod milliseconds s =
     (if milliseconds < 0 then (Inl (Error ''Grace period must be non-negative''), s)
      else (Inr (), s\<lparr>GRACE_PERIOD_MS := milliseconds\<rparr>))"

definition getGracePeriod :: "StateManager \<Rightarrow> int" where
  "getGracePeriod s = GRACE_PERIOD_MS s"

text \<open>
  \<open>getState\<close> and \<open>getStats\<close>, the snapshots behind the administrative hook. \<open>getStats\<close>
  calls \<open>getGracePeriodSubmissions\<close> and so sorts the order array as well.
\<close>

datatype state_snapshot =
  StateSnapshot (snap_question: "question option") (snap_winner: "string option")
    (snap_isLocked: bool) (snap_submissionCount: nat)
    (snap_submissions: "(string \<times> submission) list") (snap_gracePeriodMs: int)

definition getState :: "StateManager \<Rightarrow> state_snapshot" where
  "getState s =
     StateSnapshot (currentQuestion s) (currentWinner s) (isLocked s)
       (length (submissions s)) (submissions s) (GRACE_PERIOD_MS s)"

datatype stats =
  Stats (totalSubmissions: nat) (hasWinner: bool) (stats_isLocked: bool)
    (questionId: "string option") (gracePeriodSubmissions: nat)

definition getStats :: "StateManager \<Rightarrow> stats \<times> StateManager" where
  "getStats s =
     (let (grace, s') = getGracePeriodSubmissions s
      in (Stats (length (submissions s)) (currentWinner s \<noteq> None) (isLocked s)
            (case currentQuestion s of None \<Rightarrow> None
             | Some q \<Rightarrow> if q_id q = [] then None else Some (q_id q))
            (length grace), s'))"

subsection \<open>Sequences of calls on one StateManager\<close>

text \<open>
  A call of the public interface, with its arguments; \<open>exec_op\<close> gives what the call
  returns (or throws) and the state it leaves, \<open>run\<close> the state after a sequence of calls.
\<close>

datatype sm_op =
    SetQuestion question
  | GetCurrentQuestion
  | HasSubmitted string
  | RecordSubmission string jsval int
  | AttemptWin string bool
  | GetWinner
  | IsQuestionLocked
  | GetSubmissionsInOrder
  | GetGracePeriodSubmissions
  | GetSubmission string
  | GetState
  | GetStats
  | Reset
  | SetGracePeriod int
  | GetGracePeriod

datatype op_result =
    RVoid
  | RQuestion "question option"
  | RBool bool
  | RRecord "js_error + submission_result"
  | RWinner "string option"
  | ROrdered "ordered_submission list"
  | REntries "order_entry list"
  | RSubmission "submission option"
  | RState state_snapshot
  | RStats stats
  | RGrace "js_error + unit"
  | RInt int

fun exec_op :: "sm_op \<Rightarrow> StateManager \<Rightarrow> op_result \<times> StateManager" where
  "exec_op (SetQuestion q) s = (RVoid, setQuestion q s)"
| "exec_op GetCurrentQuestion s = (RQuestion (getCurrentQuestion s), s)"
| "exec_op (HasSubmitted c) s = (RBool (hasSubmitted c s), s)"
| "exec_op (RecordSubmission c a t) s =
     (RRecord (fst (recordSubmission c a t s)), snd (recordSubmission c a t s))"
| "exec_op (AttemptWin c b) s = (RBool (fst (attemptWin c b s)), snd (attemptWin c b s))"
| "exec_op GetWinner s = (RWinner (getWinner s), s)"
| "exec_op IsQuestionLocked s = (RBool (isQuestionLocked s), s)"
| "exec_op GetSubmissionsInOrder s =
     (ROrdered (fst (getSubmissionsInOrder s)), snd (getSubmissionsInOrder s))"
| "exec_op GetGracePeriodSubmissions s =
     (REntries (fst (getGracePeriodSubmissions s)), snd (getGracePeriodSubmissions s))"
| "exec_op (GetSubmission c) s = (RSubmission (getSubmission c s), s)"
| "exec_op GetState s = (RState (getState s), s)"
| "exec_op GetStats s = (RStats (fst (getStats s)), snd (getStats s))"
| "exec_op Reset s = (RVoid, reset s)"
| "exec_op (SetGracePeriod d) s = (RGrace (fst (setGracePeriod d s)), snd (setGracePeriod d s))"
| "exec_op GetGracePeriod s = (RInt (getGracePeriod s), s)"

fun run :: "sm_op list \<Rightarrow> StateManager \<Rightarrow> StateManager" where
  "run [] s = s"
| "run (op # ops) s = run ops (snd (exec_op op s))"

fun results :: "sm_op list \<Rightarrow> StateManager \<Rightarrow> op_result list" where
  "results [] s = []"
| "results (op # ops) s = fst (exec_op op s) # results ops (snd (exec_op op s))"

text \<open>The connections for which \<open>attemptWin\<close> returned true, in the order of the calls.\<close>

fun winners :: "sm_op list \<Rightarrow> StateManager \<Rightarrow> string list" where
  "winners [] s = []"
| "winners (AttemptWin c b # ops) s =
     (if fst (attemptWin c b s) then [c] else []) @ winners ops (snd (attemptWin c b s))"
| "winners (op # ops) s = winners ops (snd (exec_op op s))"

text \<open>The two calls that start a round afresh: they release the lock and empty the map.\<close>

fun clears_round :: "sm_op \<Rightarrow> bool" where
  "clears_round (SetQuestion q) = True"
| "clears_round Reset = True"
| "clears_round op = False"

fun is_SetQuestion :: "sm_op \<Rightarrow> bool" where
  "is_SetQuestion (SetQuestion q) = True"
| "is_SetQuestion op = False"

text \<open>
  Every \<open>attemptWin\<close> with a correct answer in the sequence is made while a question is
  current, as in \<open>handleAnswerSubmission\<close>, which reaches \<open>attemptWin\<close> only after
  \<open>recordSubmission\<close> has succeeded.
\<close>

fun wins_have_question :: "sm_op list \<Rightarrow> StateManager \<Rightarrow> bool" where
  "wins_have_question [] s = True"
| "wins_have_question (AttemptWin c b # ops) s =
     ((\<not> b \<or> currentQuestion s \<noteq> None) \<and> wins_have_question ops (snd (attemptWin c b s)))"
| "wins_have_question (op # ops) s = wins_have_question ops (snd (exec_op op s))"

section \<open>StateMachineLogger (the lifecycle machine)\<close>

text \<open>
  The state names are the four keys of \<open>states\<close> and \<open>validTransitions\<close>; every call site
  passes one of these literals.
\<close>

datatype lifecycle = IDLE | ACTIVE | LOCKED | TRANSITIONING

text \<open>The context objects that the callers of \<open>transition\<close> pass; \<open>NoContext\<close> is \<open>{}\<close>.\<close>

datatype transition_context =
    NoContext
  | WinnerContext string string int
  | DisplayContext nat
  | QuestionContext string string difficulty
  | ReasonContext string

text \<open>
  A record of \<open>stateHistory\<close>: \<open>{from, to, timestamp, timestampISO, transitionNumber,
  context}\<close>, without the ISO rendering of the timestamp.
\<close>

record transition_record =
  t_from :: lifecycle
  t_to :: lifecycle
  t_timestamp :: nat
  t_transitionNumber :: nat
  t_context :: transition_context

record StateMachineLogger =
  currentState :: lifecycle
  stateHistory :: "transition_record list"
  transitionCount :: nat

definition new_StateMachineLogger :: StateMachineLogger where
  "new_StateMachineLogger = \<lparr>currentState = IDLE, stateHistory = [], transitionCount = 0\<rparr>"

fun validTransitions :: "lifecycle \<Rightarrow> lifecycle list" where
  "validTransitions IDLE = [ACTIVE]"
| "validTransitions ACTIVE = [LOCKED, IDLE]"
| "validTransitions LOCKED = [TRANSITIONING]"
| "validTransitions TRANSITIONING = [ACTIVE, IDLE]"

text \<open>
  What \<open>transition\<close> writes with \<open>console.warn\<close>: the rejected pair. The banner that
  \<open>logTransition\<close> prints with \<open>console.log\<close> changes no state and is left out.
\<close>

datatype console_line = Invalid_state_transition lifecycle lifecycle

text \<open>
  \<open>transition newState context\<close>, with the reading \<open>now\<close> of \<open>Date.now()\<close>. The result is
  the warnings written and the machine after the call.
\<close>

definition transition ::
  "lifecycle \<Rightarrow> transition_context \<Rightarrow> nat \<Rightarrow> StateMachineLogger \<Rightarrow> console_line list \<times> StateMachineLogger"
where
  "transition newState ctx now m =
     (let oldState = currentState m;
          warnings = (if newState \<notin> set (validTransitions oldState)
                      then [Invalid_state_transition oldState newState] else []);
          count = transitionCount m + 1;
          tr = \<lparr>t_from = oldState, t_to = newState, t_timestamp = now,
                t_transitionNumber = count, t_context = ctx\<rparr>
      in (warnings,
          m\<lparr>transitionCount := count, stateHistory := stateHistory m @ [tr],
            currentState := newState\<rparr>))"

definition getCurrentState :: "StateMachineLogger \<Rightarrow> lifecycle" where
  "getCurrentState m = currentState m"

definition isInState :: "lifecycle \<Rightarrow> StateMachineLogger \<Rightarrow> bool" where
  "isInState state m = (currentState m = state)"

definition getHistory :: "StateMachineLogger \<Rightarrow> transition_record list" where
  "getHistory m = stateHistory m"

text \<open>\<open>reset()\<close> of the machine: a transition to \<open>IDLE\<close> from whatever state it is in.\<close>

definition machine_reset ::
  "nat \<Rightarrow> StateMachineLogger \<Rightarrow> console_line list \<times> StateMachineLogger"
where
  "machine_reset now m = transition IDLE (ReasonContext ''Manual reset'') now m"

subsection \<open>Sequences of calls on one machine\<close>

datatype machine_op = Transition lifecycle transition_context nat | MachineReset nat

fun exec_machine_op ::
  "machine_op \<Rightarrow> StateMachineLogger \<Rightarrow> console_line list \<times> StateMachineLogger"
where
  "exec_machine_op (Transition target ctx now) m = transition target ctx now m"
| "exec_machine_op (MachineReset now) m = machine_reset now m"

text \<open>All warnings written during a sequence of calls, and the machine it leaves.\<close>

fun run_machine ::
  "machine_op list \<Rightarrow> StateMachineLogger \<Rightarrow> console_line list \<times> StateMachineLogger"
where
  "run_machine [] m = ([], m)"
| "run_machine (op # ops) m =
     (let (w, m') = exec_machine_op op m; (ws, m'') = run_machine ops m'
      in (w @ ws, m''))"

definition allowed :: "lifecycle \<Rightarrow> lifecycle \<Rightarrow> bool" where
  "allowed a b = (b \<in> set (validTransitions a))"

section \<open>QuestionGenerator\<close>

subsection \<open>The conversion \<open>Number(value)\<close>\<close>

text \<open>
  \<open>validate\<close> converts the answer with \<open>Number\<close>. On a string this is the language's
  StringToNumber: white space is stripped at both ends, the empty rest is \<open>0\<close>, a rest that
  is a numeric literal is its value, and every other rest is \<open>NaN\<close>. A \<open>char\<close> is one
  byte, so the white space here is the white space and line terminators up to U+00FF.
\<close>

definition is_StrWhiteSpaceChar :: "char \<Rightarrow> bool" where
  "is_StrWhiteSpaceChar c = ((of_char c :: nat) \<in> set [9, 10, 11, 12, 13, 32, 160])"

definition trim :: "string \<Rightarrow> string" where
  "trim s = rev (dropWhile is_StrWhiteSpaceChar (rev (dropWhile is_StrWhiteSpaceChar s)))"

text \<open>The value of a character as a digit of radix \<open>b\<close>, if it is one.\<close>

definition digit_of :: "nat \<Rightarrow> char \<Rightarrow> nat option" where
  "digit_of b c =
     (let n = (of_char c :: nat);
          v = (if 48 \<le> n \<and> n \<le> 57 then Some (n - 48)
               else if 97 \<le> n \<and> n \<le> 102 then Some (n - 87)
               else if 65 \<le> n \<and> n \<le> 70 then Some (n - 55)
               else None)
      in case v of None \<Rightarrow> None | Some d \<Rightarrow> if d < b then Some d else None)"

definition is_digit :: "nat \<Rightarrow> char \<Rightarrow> bool" where
  "is_digit b c = (digit_of b c \<noteq> None)"

definition digits_value :: "nat \<Rightarrow> string \<Rightarrow> nat" where
  "digits_value b ds =
     foldl (\<lambda>acc c. acc * b + (case digit_of b c of None \<Rightarrow> 0 | Some d \<Rightarrow> d)) 0 ds"

definition pow10 :: "int \<Rightarrow> rat" where
  "pow10 e = (if 0 \<le> e then 10 ^ nat e else 1 / 10 ^ nat (- e))"

definition parse_SignedInteger :: "string \<Rightarrow> int option" where
  "parse_SignedInteger s =
     (let (sign, ds) =
            (case s of
               [] \<Rightarrow> (1, s)
             | c # r \<Rightarrow> if c = CHR ''+'' then (1, r) else if c = CHR ''-'' then (- 1, r) else (1, s))
      in if ds \<noteq> [] \<and> list_all (is_digit 10) ds
         then Some (sign * int (digits_value 10 ds)) else None)"

text \<open>The optional exponent part: nothing, or \<open>e\<close>/\<open>E\<close> and a signed integer.\<close>

definition parse_ExponentPart :: "string \<Rightarrow> int option" where
  "parse_ExponentPart s =
     (case s of
        [] \<Rightarrow> Some 0
      | c # r \<Rightarrow> if c = CHR ''e'' \<or> c = CHR ''E'' then parse_SignedInteger r else None)"

definition parse_StrUnsignedDecimalLiteral :: "string \<Rightarrow> jsnum" where
  "parse_StrUnsignedDecimalLiteral s =
     (if s = ''Infinity'' then PosInf
      else
        (let ip = takeWhile (is_digit 10) s;
             r1 = dropWhile (is_digit 10) s;
             (fp, r2) =
               (case r1 of
                  [] \<Rightarrow> ([], r1)
                | c # r \<Rightarrow>
                    if c = CHR ''.'' then (takeWhile (is_digit 10) r, dropWhile (is_digit 10) r)
                    else ([], r1))
         in if ip = [] \<and> fp = [] then NaN
            else
              (case parse_ExponentPart r2 of
                 None \<Rightarrow> NaN
               | Some e \<Rightarrow>
                   Fin (of_nat (digits_value 10 (ip @ fp)) * pow10 (e - int (length fp))))))"

fun js_neg :: "jsnum \<Rightarrow> jsnum" where
  "js_neg NaN = NaN"
| "js_neg (Fin x) = Fin (- x)"
| "js_neg PosInf = NegInf"
| "js_neg NegInf = PosInf"

definition parse_StrDecimalLiteral :: "string \<Rightarrow> jsnum" where
  "parse_StrDecimalLiteral s =
     (case s of
        [] \<Rightarrow> NaN
      | c # r \<Rightarrow>
          if c = CHR ''+'' then parse_StrUnsignedDecimalLiteral r
          else if c = CHR ''-'' then js_neg (parse_StrUnsignedDecimalLiteral r)
          else parse_StrUnsignedDecimalLiteral s)"

definition radix_literal :: "nat \<Rightarrow> string \<Rightarrow> jsnum" where
  "radix_literal b ds =
     (if ds \<noteq> [] \<and> list_all (is_digit b) ds then Fin (of_nat (digits_value b ds)) else NaN)"

text \<open>The literals \<open>0x\<close>, \<open>0o\<close>, \<open>0b\<close>; \<open>None\<close> when the string has no such prefix.\<close>

definition parse_NonDecimalIntegerLiteral :: "string \<Rightarrow> jsnum option" where
  "parse_NonDecimalIntegerLiteral s =
     (case s of
        z # x # ds \<Rightarrow>
          if z \<noteq> CHR ''0'' then None
          else if x = CHR ''x'' \<or> x = CHR ''X'' then Some (radix_literal 16 ds)
          else if x = CHR ''o'' \<or> x = CHR ''O'' then Some (radix_literal 8 ds)
          else if x = CHR ''b'' \<or> x = CHR ''B'' then Some (radix_literal 2 ds)
          else None
      | _ \<Rightarrow> None)"

definition StringToNumber :: "string \<Rightarrow> jsnum" where
  "StringToNumber s =
     (let t = trim s
      in if t = [] then Fin 0
         else
           (case parse_NonDecimalIntegerLiteral t of
              Some n \<Rightarrow> n
            | None \<Rightarrow> parse_StrDecimalLiteral t))"

fun Number :: "jsval \<Rightarrow> jsnum" where
  "Number Undefined = NaN"
| "Number Null = Fin 0"
| "Number (Str s) = StringToNumber s"
| "Number (Num n) = n"

fun isNaN :: "jsnum \<Rightarrow> bool" where
  "isNaN NaN = True"
| "isNaN n = False"

fun js_minus :: "jsnum \<Rightarrow> jsnum \<Rightarrow> jsnum" where
  "js_minus NaN y = NaN"
| "js_minus x NaN = NaN"
| "js_minus (Fin a) (Fin b) = Fin (a - b)"
| "js_minus (Fin a) PosInf = NegInf"
| "js_minus (Fin a) NegInf = PosInf"
| "js_minus PosInf PosInf = NaN"
| "js_minus PosInf y = PosInf"
| "js_minus NegInf NegInf = NaN"
| "js_minus NegInf y = NegInf"

fun Math_abs :: "jsnum \<Rightarrow> jsnum" where
  "Math_abs NaN = NaN"
| "Math_abs (Fin x) = Fin \<bar>x\<bar>"
| "Math_abs PosInf = PosInf"
| "Math_abs NegInf = PosInf"

fun js_less :: "jsnum \<Rightarrow> jsnum \<Rightarrow> bool" where
  "js_less NaN y = False"
| "js_less x NaN = False"
| "js_less (Fin a) (Fin b) = (a < b)"
| "js_less (Fin a) PosInf = True"
| "js_less (Fin a) NegInf = False"
| "js_less PosInf y = False"
| "js_less NegInf NegInf = False"
| "js_less NegInf y = True"

subsection \<open>\<open>validate\<close>\<close>

definition validate :: "jsval \<Rightarrow> int \<Rightarrow> bool" where
  "validate userAnswer correctAnswer =
     (if userAnswer = Null \<or> userAnswer = Undefined \<or> userAnswer = Str [] then False
      else
        (let parsedAnswer = Number userAnswer
         in if isNaN parsedAnswer then False
            else js_less (Math_abs (js_minus parsedAnswer (Fin (of_int correctAnswer))))
                   (Fin (1 / 10000))))"

subsection \<open>\<open>generate\<close>\<close>

text \<open>
  An integer in a template literal is written in decimal (every number handled here is
  far below \<open>1e21\<close>, where the notation would change).
\<close>

fun show_nat :: "nat \<Rightarrow> string" where
  "show_nat n =
     (if n < 10 then [char_of (48 + n)]
      else show_nat (n div 10) @ [char_of (48 + n mod 10)])"

declare show_nat.simps [simp del]

definition show_int :: "int \<Rightarrow> string" where
  "show_int i = (if i < 0 then CHR ''-'' # show_nat (nat (- i)) else show_nat (nat i))"

datatype operator =
  Operator (op_symbol: string) (op_name: string) (op_operation: "int \<Rightarrow> int \<Rightarrow> int")
    (op_difficulty: difficulty)

definition operators :: "operator list" where
  "operators =
     [Operator ''+'' ''addition'' (\<lambda>a b. a + b) easy,
      Operator ''-'' ''subtraction'' (\<lambda>a b. a - b) easy,
      Operator ''*'' ''multiplication'' (\<lambda>a b. a * b) medium]"

record config =
  minNumber :: int
  maxNumber :: int
  cfg_operators :: "string list"

fun difficultyLevels :: "difficulty \<Rightarrow> config" where
  "difficultyLevels easy = \<lparr>minNumber = 1, maxNumber = 50, cfg_operators = [''+'', ''-'']\<rparr>"
| "difficultyLevels medium =
     \<lparr>minNumber = 1, maxNumber = 100, cfg_operators = [''+'', ''-'', ''*'']\<rparr>"
| "difficultyLevels hard =
     \<lparr>minNumber = 10, maxNumber = 100, cfg_operators = [''+'', ''-'', ''*'']\<rparr>"

text \<open>
  The two sources of non-determinism are explicit: a stream of the outcomes of the
  successive calls of \<open>Math.random()\<close>, and a stream of the successive clock readings
  (\<open>Date.now()\<close>, \<open>new Date()\<close>). Each function returns what is left of the streams.
\<close>

definition getRandomNumber :: "int \<Rightarrow> int \<Rightarrow> rat stream \<Rightarrow> int \<times> rat stream" where
  "getRandomNumber mn mx rng = (\<lfloor>shd rng * of_int (mx - mn + 1)\<rfloor> + mn, stl rng)"

text \<open>Indexing the array outside its bounds gives \<open>undefined\<close>, here \<open>None\<close>.\<close>

definition getRandomOperator :: "difficulty \<Rightarrow> rat stream \<Rightarrow> operator option \<times> rat stream" where
  "getRandomOperator d rng =
     (let cfg = difficultyLevels d;
          availableOperators = filter (\<lambda>op. op_symbol op \<in> set (cfg_operators cfg)) operators;
          randomIndex = \<lfloor>shd rng * of_nat (length availableOperators)\<rfloor>
      in (if 0 \<le> randomIndex \<and> randomIndex < int (length availableOperators)
          then Some (availableOperators ! nat randomIndex) else None,
          stl rng))"

definition substr :: "nat \<Rightarrow> nat \<Rightarrow> string \<Rightarrow> string" where
  "substr start len s = take len (drop start s)"

text \<open>
  The identifier \<open>`q_${Date.now()}_${Math.random().toString(36).substr(2, 9)}`\<close>, for the
  clock reading \<open>now\<close> and the random outcome \<open>r\<close>. The rendering of a number in radix
  36 belongs to the runtime and is the parameter \<open>toString36\<close>.
\<close>

definition make_questionId :: "(rat \<Rightarrow> string) \<Rightarrow> nat \<Rightarrow> rat \<Rightarrow> string" where
  "make_questionId toString36 now r = ''q_'' @ show_nat now @ ''_'' @ substr 2 9 (toString36 r)"

text \<open>
  \<open>generate\<close>. An operator that is \<open>undefined\<close> makes \<open>operator.symbol\<close> throw a
  \<open>TypeError\<close>; this needs a random outcome outside \<open>[0, 1)\<close>.
\<close>

definition generate ::
  "(rat \<Rightarrow> string) \<Rightarrow> difficulty \<Rightarrow> rat stream \<Rightarrow> nat stream \<Rightarrow>
     (js_error + question) \<times> rat stream \<times> nat stream"
where
  "generate toString36 d rng clock =
     (let cfg = difficultyLevels d;
          (num1, rng) = getRandomNumber (minNumber cfg) (maxNumber cfg) rng;
          (num2, rng) = getRandomNumber (minNumber cfg) (maxNumber cfg) rng;
          (operator, rng) = getRandomOperator d rng
      in case operator of
           None \<Rightarrow> (Inl TypeError, rng, clock)
         | Some operator \<Rightarrow>
             (let (num1, num2) =
                    (if op_symbol operator = ''-'' \<and> num1 < num2 then (num2, num1)
                     else (num1, num2));
                  (num1, rng) =
                    (if op_symbol operator = ''*''
                     then getRandomNumber (minNumber cfg) (min (maxNumber cfg) 20) rng
                     else (num1, rng));
                  (num2, rng) =
                    (if op_symbol operator = ''*''
                     then getRandomNumber (minNumber cfg) (min (maxNumber cfg) 20) rng
                     else (num2, rng));
                  answer = op_operation operator num1 num2;
                  questionId = make_questionId toString36 (shd clock) (shd rng)
              in (Inr \<lparr>q_id = questionId,
                       q_question = show_int num1 @ '' '' @ op_symbol operator @ '' '' @ show_int num2,
                       q_answer = answer,
                       q_operands = (num1, num2),
                       q_operator = op_symbol operator,
                       q_operatorName = op_name operator,
                       q_difficulty = d,
                       q_generatedAt = shd (stl clock),
                       q_generatedAtISO = shd (stl (stl clock))\<rparr>,
                  stl rng, stl (stl (stl clock)))))"

text \<open>
  One such rendering: the exact radix-36 expansion of a fraction in \<open>[0, 1)\<close>, up to the
  nine digits that \<open>substr(2, 9)\<close> can reach. For a fraction whose expansion ends within
  these digits it is what \<open>toString(36)\<close> returns: \<open>(0.5).toString(36)\<close> is \<open>0.i\<close>. For
  other fractions the runtime prints the shortest digits that identify the double, which
  this expansion does not follow; it is used at \<open>0.5\<close> only.
\<close>

definition digit36 :: "nat \<Rightarrow> char" where
  "digit36 d = (if d < 10 then char_of (48 + d) else char_of (87 + d))"

fun fraction36 :: "nat \<Rightarrow> rat \<Rightarrow> string" where
  "fraction36 0 r = []"
| "fraction36 (Suc n) r =
     (if r = 0 then []
      else digit36 (nat \<lfloor>r * 36\<rfloor>) # fraction36 n (r * 36 - of_int \<lfloor>r * 36\<rfloor>))"

definition expansion36 :: "rat \<Rightarrow> string" where
  "expansion36 r = (if r = 0 then ''0'' else ''0.'' @ fraction36 9 r)"

section \<open>The socket handler for \<open>submit-answer\<close>\<close>

text \<open>
  The services the handlers share. What a handler does to the outside is the list of its
  effects, in order: events emitted to one socket or to all, timers armed and cancelled,
  warnings written, and the exception it ends with, if any. The lines written with
  \<open>console.log\<close> are left out.
\<close>

record Hub =
  stateManager :: StateManager
  stateMachine :: StateMachineLogger

datatype event =
    submission_error string string nat
  | submission_rejected reason string nat
  | winner_declared string int string string int nat nat
  | you_won string int string nat
  | submission_result bool bool string nat

datatype timer_task = transition_to_TRANSITIONING | generateNewQuestion

datatype effect =
    Emit_to string event
  | Emit_all event
  | Console console_line
  | SetTimeout timer_task nat
  | ClearTimeout_questionTimeout
  | Set_questionTimeout timer_task nat
  | Throw js_error

definition WINNER_DISPLAY_DURATION :: nat where
  "WINNER_DISPLAY_DURATION = 3000"

text \<open>
  \<open>handleAnswerSubmission(socket, {answer}, io)\<close> for the socket with id \<open>socketId\<close>;
  \<open>timestamp\<close> is the reading of \<open>Date.now()\<close> at entry and \<open>now\<close> the reading that
  \<open>stateMachine.transition\<close> takes.
\<close>

definition handleAnswerSubmission ::
  "string \<Rightarrow> jsval \<Rightarrow> nat \<Rightarrow> nat \<Rightarrow> Hub \<Rightarrow> effect list \<times> Hub"
where
  "handleAnswerSubmission socketId answer timestamp now hub =
     (if answer = Undefined \<or> answer = Null \<or> answer = Str [] then
        ([Emit_to socketId (submission_error ''Invalid answer'' ''Answer cannot be empty'' timestamp)],
         hub)
      else
        (case recordSubmission socketId answer (int timestamp) (stateManager hub) of
           (Inl e, sm) \<Rightarrow> ([Throw e], hub\<lparr>stateManager := sm\<rparr>)
         | (Inr (Failure reason message), sm) \<Rightarrow>
             ([Emit_to socketId (submission_rejected reason message timestamp)],
              hub\<lparr>stateManager := sm\<rparr>)
         | (Inr (Success t), sm) \<Rightarrow>
             (case getCurrentQuestion sm of
                None \<Rightarrow> ([Throw TypeError], hub\<lparr>stateManager := sm\<rparr>)
              | Some currentQ \<Rightarrow>
                  (let isCorrect = validate answer (q_answer currentQ);
                       (isWinner, sm) = attemptWin socketId isCorrect sm
                   in if isWinner then
                        (let (warnings, machine) =
                               transition LOCKED
                                 (WinnerContext socketId (q_question currentQ)
                                    (q_answer currentQ))
                                 now (stateMachine hub);
                             hub' = hub\<lparr>stateManager := sm, stateMachine := machine\<rparr>
                         in case getSubmission socketId sm of
                              None \<Rightarrow> (map Console warnings @ [Throw TypeError], hub')
                            | Some winnerSubmission \<Rightarrow>
                                (map Console warnings @
                                 [Emit_all
                                    (winner_declared socketId (q_answer currentQ)
                                       (q_question currentQ) (q_id currentQ)
                                       (sub_timestamp winnerSubmission) WINNER_DISPLAY_DURATION
                                       timestamp),
                                  Emit_to socketId
                                    (you_won ''Congratulations! You got it right first!''
                                       (q_answer currentQ) (q_question currentQ)
                                       timestamp),
                                  SetTimeout transition_to_TRANSITIONING 100,
                                  ClearTimeout_questionTimeout,
                                  Set_questionTimeout generateNewQuestion WINNER_DISPLAY_DURATION],
                                 hub'))
                      else if isCorrect then
                        ([Emit_to socketId
                            (submission_result True False
                               ''Correct answer, but someone else got it first!'' timestamp)],
                         hub\<lparr>stateManager := sm\<rparr>)
                      else
                        ([Emit_to socketId
                            (submission_result False False ''Incorrect answer. Keep trying!''
                               timestamp)],
                         hub\<lparr>stateManager := sm\<rparr>)))))"

text \<open>A question, a round state and a hub to evaluate the definitions on.\<close>

definition question0 :: question where
  "question0 =
     \<lparr>q_id = ''q_1700000000000_i'', q_question = ''51 - 51'', q_answer = 0,
      q_operands = (51, 51), q_operator = ''-'', q_operatorName = ''subtraction'',
      q_difficulty = medium, q_generatedAt = 1700000000000,
      q_generatedAtISO = 1700000000000\<rparr>"

definition hub0 :: Hub where
  "hub0 =
     \<lparr>stateManager = setQuestion question0 new_StateManager,
      stateMachine = snd (transition ACTIVE
         (QuestionContext (q_id question0) (q_question question0) (q_difficulty question0))
         1700000000000 new_StateMachineLogger)\<rparr>"

section \<open>Predicates used in the statements\<close>

text \<open>
  Invariant I4 in the words of the specification: without a current question the map is
  empty, the lock released and the winner absent.
\<close>

definition I4 :: "StateManager \<Rightarrow> bool" where
  "I4 s = (currentQuestion s = None \<longrightarrow>
             submissions s = [] \<and> isLocked s = False \<and> currentWinner s = None)"

definition round_data_empty :: "StateManager \<Rightarrow> bool" where
  "round_data_empty s =
     (currentQuestion s = None \<longrightarrow> submissions s = [] \<and> submissionOrder s = [])"

text \<open>
  Two states that agree on every field but the order array, and whose order arrays have
  the same stable sort.
\<close>

definition same_view :: "StateManager \<Rightarrow> StateManager \<Rightarrow> bool" where
  "same_view s s' =
     (currentQuestion s = currentQuestion s' \<and> currentWinner s = currentWinner s' \<and>
      isLocked s = isLocked s' \<and> submissions s = submissions s' \<and>
      GRACE_PERIOD_MS s = GRACE_PERIOD_MS s' \<and>
      sort_in_place (submissionOrder s) = sort_in_place (submissionOrder s'))"

text \<open>
  Two rounds of the test suite's kind: submissions recorded with timestamps out of order
  (as in its test of \<open>getSubmissionsInOrder\<close>), and in order.
\<close>

definition round_out_of_order :: StateManager where
  "round_out_of_order =
     run [SetQuestion question0, RecordSubmission ''user-3'' (Str ''10'') 30,
          RecordSubmission ''user-1'' (Str ''20'') 10] new_StateManager"

definition round_in_order :: StateManager where
  "round_in_order =
     run [SetQuestion question0, RecordSubmission ''user-1'' (Str ''20'') 10,
          RecordSubmission ''user-3'' (Str ''10'') 30] new_StateManager"

text \<open>
  The outcome of \<open>Math.random()\<close> from which the identifier of \<open>q\<close> was built: the fourth
  of the call, or the sixth when the operands of a multiplication were drawn again.
\<close>

definition id_draw :: "question \<Rightarrow> rat stream \<Rightarrow> rat" where
  "id_draw q rng = rng !! (if q_operator q = ''*'' then 5 else 3)"

text \<open>
  Two successive calls of \<open>generate\<close> in one run, within one millisecond of the clock and
  with every random outcome \<open>0.5\<close>; the second call continues on the streams the first
  has left.
\<close>

definition first_call :: "(js_error + question) \<times> rat stream \<times> nat stream" where
  "first_call = generate expansion36 medium (sconst (1 / 2)) (sconst 1700000000000)"

definition second_call :: "(js_error + question) \<times> rat stream \<times> nat stream" where
  "second_call = generate expansion36 medium (fst (snd first_call)) (snd (snd first_call))"

text \<open>Reading a decimal numeral back, the inverse of \<open>show_nat\<close>.\<close>

definition read_nat :: "string \<Rightarrow> nat" where
  "read_nat s = foldl (\<lambda>acc c. 10 * acc + (of_char c - 48)) 0 s"

text \<open>
  The hub after \<open>u1\<close> has submitted a wrong answer to \<open>question0\<close>, and after \<open>u2\<close> has
  then submitted the right one.
\<close>

definition hub_after_wrong :: Hub where
  "hub_after_wrong =
     snd (handleAnswerSubmission ''u1'' (Str ''99'') 1700000000100 1700000000100 hub0)"

definition hub_after_win :: Hub where
  "hub_after_win =
     snd (handleAnswerSubmission ''u2'' (Str ''0'') 1700000000200 1700000000200 hub_after_wrong)"

section \<open>Properties of the round state\<close>

lemma Map_get_set_same: "Map_get (Map_set m k v) k = Some v"
  by (induction m) auto

lemma Map_get_set_other: "k' \<noteq> k \<Longrightarrow> Map_get (Map_set m k v) k' = Map_get m k'"
  by (induction m) auto

lemma Map_set_append: "Map_get m k = None \<Longrightarrow> Map_set m k v = m @ [(k, v)]"
  by (induction m) (auto split: if_splits)

lemma Map_has_set: "Map_has (Map_set m k v) k' = (k' = k \<or> Map_has m k')"
  by (induction m) (auto simp: Map_has_def split: if_splits)

lemma Map_get_append:
  "Map_get (m @ m') k = (case Map_get m k of None \<Rightarrow> Map_get m' k | Some v \<Rightarrow> Some v)"
  by (induction m) auto

lemmas sm_defs = setQuestion_def recordSubmission_def attemptWin_def reset_def
  setGracePeriod_def getSubmissionsInOrder_def getGracePeriodSubmissions_def getStats_def

subsection \<open>setQuestion\<close>

text \<open>
  C8. For every state and every question \<open>q\<close>, \<open>setQuestion q\<close> installs \<open>q\<close> and leaves the
  submission map and the order array empty, the lock released and the winner absent,
  whatever the previous round held. Only the grace period is carried over.
\<close>

theorem setQuestion_clears_round:
  "currentQuestion (setQuestion q s) = Some q \<and>
   submissions (setQuestion q s) = [] \<and>
   submissionOrder (setQuestion q s) = [] \<and>
   isLocked (setQuestion q s) = False \<and>
   currentWinner (setQuestion q s) = None \<and>
   GRACE_PERIOD_MS (setQuestion q s) = GRACE_PERIOD_MS s"
  by (simp add: setQuestion_def)

subsection \<open>recordSubmission\<close>

text \<open>
  C3. \<open>recordSubmission\<close> checks, in this order, the lock (reason \<open>question-locked\<close>), an
  earlier submission of the same connection (\<open>already-submitted\<close>) and the absence of a
  question (\<open>no-question\<close>), each rejection leaving the state as it was. When none
  applies, and the timestamp is a time value as every server timestamp is, the call
  succeeds: the submission is appended to the map under the connection id, where
  \<open>getSubmission\<close> finds it, and the pair of id and timestamp is appended to the order
  array.
\<close>

theorem recordSubmission_checks_in_order:
  "(isLocked s \<longrightarrow>
      recordSubmission c a t s =
        (Inr (Failure question_locked ''This question already has a winner''), s)) \<and>
   (\<not> isLocked s \<and> hasSubmitted c s \<longrightarrow>
      recordSubmission c a t s =
        (Inr (Failure already_submitted
           ''You have already submitted an answer for this question''), s)) \<and>
   (\<not> isLocked s \<and> \<not> hasSubmitted c s \<and> currentQuestion s = None \<longrightarrow>
      recordSubmission c a t s =
        (Inr (Failure no_question ''No active question to answer''), s)) \<and>
   (\<not> isLocked s \<and> \<not> hasSubmitted c s \<and> currentQuestion s \<noteq> None \<and> time_value t \<longrightarrow>
      recordSubmission c a t s =
        (Inr (Success t),
         s\<lparr>submissions := submissions s @ [(c, Submission a t)],
           submissionOrder := submissionOrder s @ [OrderEntry c t]\<rparr>) \<and>
      getSubmission c (snd (recordSubmission c a t s)) = Some (Submission a t))"
  by (auto simp: recordSubmission_def hasSubmitted_def Map_has_def Map_set_append
      getSubmission_def Map_get_append)

theorem recordSubmission_checks_in_order_witness:
  "recordSubmission ''u1'' (Str ''42'') 5 (new_StateManager\<lparr>isLocked := True\<rparr>) =
     (Inr (Failure question_locked ''This question already has a winner''),
      new_StateManager\<lparr>isLocked := True\<rparr>) \<and>
   fst (recordSubmission ''u1'' (Str ''42'') 5
      (snd (recordSubmission ''u1'' (Str ''7'') 4 (setQuestion question0 new_StateManager)))) =
     Inr (Failure already_submitted ''You have already submitted an answer for this question'') \<and>
   fst (recordSubmission ''u1'' (Str ''42'') 5 new_StateManager) =
     Inr (Failure no_question ''No active question to answer'') \<and>
   recordSubmission ''u1'' (Str ''42'') 5 (setQuestion question0 new_StateManager) =
     (Inr (Success 5),
      (setQuestion question0 new_StateManager)
        \<lparr>submissions := [(''u1'', Submission (Str ''42'') 5)],
         submissionOrder := [OrderEntry ''u1'' 5]\<rparr>)"
  using recordSubmission_checks_in_order
          [of "new_StateManager\<lparr>isLocked := True\<rparr>" "''u1''" "Str ''42''" 5]
        recordSubmission_checks_in_order
          [of "snd (recordSubmission ''u1'' (Str ''7'') 4 (setQuestion question0 new_StateManager))"
              "''u1''" "Str ''42''" 5]
        recordSubmission_checks_in_order [of new_StateManager "''u1''" "Str ''42''" 5]
        recordSubmission_checks_in_order
          [of "setQuestion question0 new_StateManager" "''u1''" "Str ''42''" 5]
  by (simp add: new_StateManager_def setQuestion_def recordSubmission_def hasSubmitted_def
      Map_has_def time_value_def)

text \<open>
  C10. The failure paths change nothing: when \<open>recordSubmission\<close> returns a rejection,
  whatever the reason, or throws, and when \<open>attemptWin\<close> returns false, the state after
  the call is the state before it, in every field.
\<close>

theorem failures_leave_state_unchanged:
  "(fst (recordSubmission c a t s) = Inr (Failure r m) \<longrightarrow> snd (recordSubmission c a t s) = s) \<and>
   (fst (recordSubmission c a t s) = Inl e \<longrightarrow> snd (recordSubmission c a t s) = s) \<and>
   (fst (attemptWin c b s) = False \<longrightarrow> snd (attemptWin c b s) = s)"
  by (simp add: recordSubmission_def attemptWin_def)

theorem failures_leave_state_unchanged_witness:
  "fst (recordSubmission ''u1'' (Str ''42'') 5 new_StateManager) =
     Inr (Failure no_question ''No active question to answer'') \<and>
   snd (recordSubmission ''u1'' (Str ''42'') 5 new_StateManager) = new_StateManager \<and>
   fst (recordSubmission ''u1'' (Str ''42'') 9000000000000000
      (setQuestion question0 new_StateManager)) = Inl RangeError \<and>
   snd (recordSubmission ''u1'' (Str ''42'') 9000000000000000
      (setQuestion question0 new_StateManager)) = setQuestion question0 new_StateManager \<and>
   fst (attemptWin ''u1'' False new_StateManager) = False \<and>
   snd (attemptWin ''u1'' False new_StateManager) = new_StateManager"
  using failures_leave_state_unchanged
          [of "''u1''" "Str ''42''" 5 new_StateManager no_question
              "''No active question to answer''" RangeError False]
        failures_leave_state_unchanged
          [of "''u1''" "Str ''42''" 9000000000000000 "setQuestion question0 new_StateManager"
              no_question "''No active question to answer''" RangeError False]
  by (simp add: recordSubmission_def attemptWin_def new_StateManager_def setQuestion_def
      hasSubmitted_def Map_has_def time_value_def)

subsection \<open>attemptWin and the single winner\<close>

lemma exec_op_keeps_lock:
  "\<not> clears_round op \<Longrightarrow> isLocked s \<Longrightarrow> isLocked (snd (exec_op op s))"
  by (cases op) (auto simp: sm_defs Let_def split: prod.splits)

lemma winners_locked:
  "isLocked s \<Longrightarrow> \<forall>op\<in>set ops. \<not> clears_round op \<Longrightarrow> winners ops s = []"
proof (induction ops arbitrary: s)
  case Nil
  then show ?case by simp
next
  case (Cons op ops)
  have locked': "isLocked (snd (exec_op op s))"
    using Cons.prems by (simp add: exec_op_keeps_lock)
  have rest: "winners ops (snd (exec_op op s)) = []"
    using Cons.IH [OF locked'] Cons.prems by simp
  show ?case
  proof (cases op)
    case (AttemptWin c b)
    then show ?thesis using rest Cons.prems(1) by (simp add: attemptWin_def)
  qed (use rest in simp_all)
qed

lemma attemptWin_true_locks: "fst (attemptWin c b s) \<Longrightarrow> isLocked (snd (attemptWin c b s))"
  by (simp add: attemptWin_def split: if_splits)

lemma winners_at_most_one:
  "\<forall>op\<in>set ops. \<not> clears_round op \<Longrightarrow> length (winners ops s) \<le> 1"
proof (induction ops arbitrary: s)
  case Nil
  then show ?case by simp
next
  case (Cons op ops)
  have IH: "length (winners ops (snd (exec_op op s))) \<le> 1"
    using Cons by simp
  show ?case
  proof (cases op)
    case (AttemptWin c b)
    show ?thesis
    proof (cases "fst (attemptWin c b s)")
      case True
      then have "winners ops (snd (attemptWin c b s)) = []"
        using Cons.prems by (intro winners_locked attemptWin_true_locks) simp_all
      then show ?thesis using AttemptWin True by simp
    next
      case False
      then show ?thesis using AttemptWin IH by simp
    qed
  qed (use IH in simp_all)
qed

text \<open>
  C2, amended. \<open>attemptWin\<close> returns false and changes nothing when the lock is set or the
  answer is not correct; otherwise it sets the lock, makes the connection the winner and
  returns true. Hence in a sequence of calls that contains neither \<open>setQuestion\<close> nor
  \<open>reset\<close>, the two calls that release the lock, at most one \<open>attemptWin\<close> returns true.
\<close>

theorem attemptWin_single_winner:
  "(isLocked s \<longrightarrow> attemptWin c b s = (False, s)) \<and>
   (\<not> b \<longrightarrow> attemptWin c b s = (False, s)) \<and>
   (\<not> isLocked s \<and> b \<longrightarrow>
      attemptWin c b s = (True, s\<lparr>isLocked := True, currentWinner := Some c\<rparr>)) \<and>
   ((\<forall>op\<in>set ops. \<not> clears_round op) \<longrightarrow> length (winners ops s) \<le> 1)"
  using winners_at_most_one [of ops s] by (simp add: attemptWin_def)

theorem attemptWin_single_winner_witness:
  "attemptWin ''u2'' True (snd (attemptWin ''u1'' True (setQuestion question0 new_StateManager)))
     = (False, snd (attemptWin ''u1'' True (setQuestion question0 new_StateManager))) \<and>
   attemptWin ''u1'' False (setQuestion question0 new_StateManager)
     = (False, setQuestion question0 new_StateManager) \<and>
   attemptWin ''u1'' True (setQuestion question0 new_StateManager)
     = (True, (setQuestion question0 new_StateManager)
          \<lparr>isLocked := True, currentWinner := Some ''u1''\<rparr>) \<and>
   winners [RecordSubmission ''u1'' (Str ''0'') 1, RecordSubmission ''u2'' (Str ''0'') 2,
            AttemptWin ''u1'' True, AttemptWin ''u2'' True]
     (setQuestion question0 new_StateManager) = [''u1'']"
  using attemptWin_single_winner
          [of "snd (attemptWin ''u1'' True (setQuestion question0 new_StateManager))" "''u2''" True
              "[]"]
        attemptWin_single_winner
          [of "setQuestion question0 new_StateManager" "''u1''" False "[]"]
        attemptWin_single_winner
          [of "setQuestion question0 new_StateManager" "''u1''" True
             "[RecordSubmission ''u1'' (Str ''0'') 1, RecordSubmission ''u2'' (Str ''0'') 2,
               AttemptWin ''u1'' True, AttemptWin ''u2'' True]"]
  by (simp add: attemptWin_def setQuestion_def new_StateManager_def recordSubmission_def
      hasSubmitted_def Map_has_def time_value_def)

text \<open>
  Between two calls of \<open>setQuestion\<close> a \<open>reset\<close> releases the lock, and a second
  \<open>attemptWin\<close> returns true.
\<close>

theorem two_winners_between_setQuestion_calls:
  "\<not> list_ex is_SetQuestion [AttemptWin ''u1'' True, Reset, AttemptWin ''u2'' True] \<and>
   winners [AttemptWin ''u1'' True, Reset, AttemptWin ''u2'' True]
     (setQuestion question0 new_StateManager) = [''u1'', ''u2'']"
  by (simp add: attemptWin_def setQuestion_def new_StateManager_def reset_def)

subsection \<open>Invariant I4\<close>

lemma sort_in_place_Nil [simp]: "sort_in_place [] = []"
  by (simp add: sort_in_place_def)

lemma exec_op_round_data_empty:
  "round_data_empty s \<Longrightarrow> round_data_empty (snd (exec_op op s))"
  by (cases op) (auto simp: round_data_empty_def sm_defs Let_def split: prod.splits)

lemma run_round_data_empty: "round_data_empty s \<Longrightarrow> round_data_empty (run ops s)"
  by (induction ops arbitrary: s) (simp_all add: exec_op_round_data_empty)

lemma exec_op_I4:
  assumes "I4 s" and "\<forall>c. op \<noteq> AttemptWin c True \<or> currentQuestion s \<noteq> None"
  shows "I4 (snd (exec_op op s))"
  using assms by (cases op) (auto simp: I4_def sm_defs Let_def split: prod.splits)

lemma wins_have_question_Cons:
  "wins_have_question (op # ops) s \<Longrightarrow>
     (\<forall>c. op \<noteq> AttemptWin c True \<or> currentQuestion s \<noteq> None) \<and>
     wins_have_question ops (snd (exec_op op s))"
  by (cases op) auto

lemma run_I4: "I4 s \<Longrightarrow> wins_have_question ops s \<Longrightarrow> I4 (run ops s)"
proof (induction ops arbitrary: s)
  case Nil
  then show ?case by simp
next
  case (Cons op ops)
  from Cons.prems(2) have guard: "\<forall>c. op \<noteq> AttemptWin c True \<or> currentQuestion s \<noteq> None"
    and rest: "wins_have_question ops (snd (exec_op op s))"
    using wins_have_question_Cons by blast+
  from Cons.prems(1) guard have "I4 (snd (exec_op op s))"
    by (rule exec_op_I4)
  then have "I4 (run ops (snd (exec_op op s)))"
    using rest by (rule Cons.IH)
  then show ?case by simp
qed

text \<open>
  C4, amended. After any sequence of public calls on a new StateManager, a state without
  a current question has an empty submission map and an empty order array. It also has
  the lock released and no winner, that is I4 holds, provided every \<open>attemptWin\<close> with a
  correct answer was made while a question was current.
\<close>

theorem I4_when_wins_have_question:
  "(currentQuestion (run ops new_StateManager) = None \<longrightarrow>
      submissions (run ops new_StateManager) = [] \<and>
      submissionOrder (run ops new_StateManager) = []) \<and>
   (wins_have_question ops new_StateManager \<longrightarrow> I4 (run ops new_StateManager))"
proof -
  have "round_data_empty new_StateManager"
    by (simp add: round_data_empty_def new_StateManager_def)
  then have "round_data_empty (run ops new_StateManager)"
    by (rule run_round_data_empty)
  moreover have "I4 new_StateManager"
    by (simp add: I4_def new_StateManager_def)
  ultimately show ?thesis
    by (auto simp: round_data_empty_def intro: run_I4)
qed

theorem I4_when_wins_have_question_witness:
  "wins_have_question
     [SetQuestion question0, RecordSubmission ''u1'' (Str ''0'') 1, AttemptWin ''u1'' True, Reset]
     new_StateManager \<and>
   currentQuestion (run [SetQuestion question0, RecordSubmission ''u1'' (Str ''0'') 1,
      AttemptWin ''u1'' True, Reset] new_StateManager) = None \<and>
   I4 (run [SetQuestion question0, RecordSubmission ''u1'' (Str ''0'') 1,
      AttemptWin ''u1'' True, Reset] new_StateManager) \<and>
   submissions (run [SetQuestion question0, RecordSubmission ''u1'' (Str ''0'') 1,
      AttemptWin ''u1'' True, Reset] new_StateManager) = []"
  using I4_when_wins_have_question
    [of "[SetQuestion question0, RecordSubmission ''u1'' (Str ''0'') 1, AttemptWin ''u1'' True,
          Reset]"]
  by (simp add: sm_defs new_StateManager_def hasSubmitted_def Map_has_def time_value_def)

text \<open>
  \<open>attemptWin\<close> does not look at the question: on a new StateManager it sets the lock and
  the winner while no question is current.
\<close>

theorem I4_broken_by_attemptWin_without_question:
  "currentQuestion (run [AttemptWin ''u1'' True] new_StateManager) = None \<and>
   isLocked (run [AttemptWin ''u1'' True] new_StateManager) = True \<and>
   currentWinner (run [AttemptWin ''u1'' True] new_StateManager) = Some ''u1'' \<and>
   \<not> I4 (run [AttemptWin ''u1'' True] new_StateManager)"
  by (simp add: I4_def attemptWin_def new_StateManager_def)

subsection \<open>The accessors that sort\<close>

lemma sort_key_append_sorted_prefix:
  "sort_key f (sort_key f xs @ ys) = sort_key f (xs @ ys)"
proof (rule properties_for_sort_key)
  show "mset (sort_key f (xs @ ys)) = mset (sort_key f xs @ ys)"
    by simp
  show "sorted (map f (sort_key f (xs @ ys)))"
    by simp
  fix k
  have "filter (\<lambda>x. f x = f k) (sort_key f (xs @ ys)) = filter (\<lambda>x. f x = f k) (xs @ ys)"
    by (rule sort_key_stable)
  moreover have "filter (\<lambda>x. f x = f k) (sort_key f xs) = filter (\<lambda>x. f x = f k) xs"
    by (rule sort_key_stable)
  ultimately have "filter (\<lambda>x. f x = f k) (sort_key f (xs @ ys)) =
      filter (\<lambda>x. f x = f k) (sort_key f xs @ ys)"
    by simp
  moreover have "(\<lambda>x. f k = f x) = (\<lambda>x. f x = f k)"
    by auto
  ultimately show "filter (\<lambda>x. f k = f x) (sort_key f (xs @ ys)) =
      filter (\<lambda>x. f k = f x) (sort_key f xs @ ys)"
    by simp
qed

lemma sort_in_place_snoc:
  assumes "sort_in_place xs = sort_in_place ys"
  shows "sort_in_place (xs @ [e]) = sort_in_place (ys @ [e])"
proof -
  have "sort_in_place (xs @ [e]) = sort_in_place (sort_in_place xs @ [e])"
    by (simp add: sort_in_place_def sort_key_append_sorted_prefix)
  also have "\<dots> = sort_in_place (sort_in_place ys @ [e])"
    using assms by simp
  also have "\<dots> = sort_in_place (ys @ [e])"
    by (simp add: sort_in_place_def sort_key_append_sorted_prefix)
  finally show ?thesis .
qed

lemma sort_in_place_idem [simp]: "sort_in_place (sort_in_place xs) = sort_in_place xs"
  by (simp add: sort_in_place_def sort_key_id_if_sorted)

lemma sort_in_place_eq_Nil [simp]: "(sort_in_place xs = []) = (xs = [])"
  by (metis length_0_conv length_sort sort_in_place_def)

lemma sort_in_place_same_length:
  "sort_in_place xs = sort_in_place ys \<Longrightarrow> (xs = []) = (ys = [])"
  by (metis sort_in_place_eq_Nil)

lemma snd_getSubmissionsInOrder:
  "snd (getSubmissionsInOrder s) = s\<lparr>submissionOrder := sort_in_place (submissionOrder s)\<rparr>"
  by (simp add: getSubmissionsInOrder_def Let_def)

lemma snd_getGracePeriodSubmissions:
  "snd (getGracePeriodSubmissions s) = s\<lparr>submissionOrder := sort_in_place (submissionOrder s)\<rparr>"
  by (simp add: getGracePeriodSubmissions_def Let_def)

lemma snd_getStats:
  "snd (getStats s) = s\<lparr>submissionOrder := sort_in_place (submissionOrder s)\<rparr>"
  by (simp add: getStats_def split: prod.splits)
     (metis snd_conv snd_getGracePeriodSubmissions)

lemma fst_getSubmissionsInOrder_cong:
  "same_view s s' \<Longrightarrow> fst (getSubmissionsInOrder s) = fst (getSubmissionsInOrder s')"
  by (simp add: getSubmissionsInOrder_def Let_def same_view_def)

lemma fst_getGracePeriodSubmissions_cong:
  "same_view s s' \<Longrightarrow> fst (getGracePeriodSubmissions s) = fst (getGracePeriodSubmissions s')"
  by (auto simp: getGracePeriodSubmissions_def Let_def same_view_def
      dest: sort_in_place_same_length)

lemma fst_getStats_cong:
  "same_view s s' \<Longrightarrow> fst (getStats s) = fst (getStats s')"
  using fst_getGracePeriodSubmissions_cong [of s s']
  by (auto simp: getStats_def same_view_def split: prod.splits)

lemma same_view_sorted:
  "same_view (s\<lparr>submissionOrder := sort_in_place (submissionOrder s)\<rparr>) s"
  by (simp add: same_view_def)

lemma same_view_sym: "same_view s s' \<Longrightarrow> same_view s' s"
  by (simp add: same_view_def)

lemma same_view_trans: "same_view s s' \<Longrightarrow> same_view s' s'' \<Longrightarrow> same_view s s''"
  by (simp add: same_view_def)

lemma exec_op_same_view:
  assumes "same_view s s'"
  shows "fst (exec_op op s) = fst (exec_op op s') \<and>
         same_view (snd (exec_op op s)) (snd (exec_op op s'))"
proof (cases op)
  case (RecordSubmission c a t)
  then show ?thesis
    using assms
    by (auto simp: same_view_def recordSubmission_def hasSubmitted_def
        intro: sort_in_place_snoc)
next
  case GetSubmissionsInOrder
  then show ?thesis
    using assms fst_getSubmissionsInOrder_cong [OF assms]
    by (simp add: snd_getSubmissionsInOrder same_view_def)
next
  case GetGracePeriodSubmissions
  then show ?thesis
    using assms fst_getGracePeriodSubmissions_cong [OF assms]
    by (simp add: snd_getGracePeriodSubmissions same_view_def)
next
  case GetStats
  then show ?thesis
    using assms fst_getStats_cong [OF assms]
    by (simp add: snd_getStats same_view_def)
qed (use assms in \<open>auto simp: same_view_def setQuestion_def attemptWin_def reset_def
      setGracePeriod_def getCurrentQuestion_def hasSubmitted_def getWinner_def
      isQuestionLocked_def getSubmission_def getState_def getGracePeriod_def\<close>)

lemma results_same_view: "same_view s s' \<Longrightarrow> results ops s = results ops s'"
proof (induction ops arbitrary: s s')
  case Nil
  then show ?case by simp
next
  case (Cons op ops)
  from exec_op_same_view [OF Cons.prems, of op]
  have r: "fst (exec_op op s) = fst (exec_op op s')"
    and v: "same_view (snd (exec_op op s)) (snd (exec_op op s'))"
    by simp_all
  from Cons.IH [OF v] r show ?case by simp
qed

lemma StateManager_order_id: "s\<lparr>submissionOrder := submissionOrder s\<rparr> = s"
  by simp

text \<open>
  C9, amended. \<open>getSubmissionsInOrder\<close> and \<open>getGracePeriodSubmissions\<close> leave the
  question, the map, the lock, the winner and the grace period unchanged, and replace the
  order array by its stable sort by timestamp; the state is unchanged when the array was
  sorted already. A second read returns what the first returned and leaves the state the
  first left, and every later call returns what it would have returned without the read.
  The other accessors (current question, has-submitted, submission, winner, locked) change
  no field at all.
\<close>

theorem accessors_sort_order_in_place:
  "snd (getSubmissionsInOrder s) = s\<lparr>submissionOrder := sort_in_place (submissionOrder s)\<rparr> \<and>
   snd (getGracePeriodSubmissions s) = s\<lparr>submissionOrder := sort_in_place (submissionOrder s)\<rparr> \<and>
   (sorted (map entry_timestamp (submissionOrder s)) \<longrightarrow>
      snd (getSubmissionsInOrder s) = s \<and> snd (getGracePeriodSubmissions s) = s) \<and>
   getSubmissionsInOrder (snd (getSubmissionsInOrder s)) = getSubmissionsInOrder s \<and>
   getGracePeriodSubmissions (snd (getGracePeriodSubmissions s)) = getGracePeriodSubmissions s \<and>
   results ops (snd (getSubmissionsInOrder s)) = results ops s \<and>
   results ops (snd (getGracePeriodSubmissions s)) = results ops s \<and>
   snd (exec_op GetCurrentQuestion s) = s \<and> snd (exec_op (HasSubmitted c) s) = s \<and>
   snd (exec_op (GetSubmission c) s) = s \<and> snd (exec_op GetWinner s) = s \<and>
   snd (exec_op IsQuestionLocked s) = s"
proof -
  let ?s' = "s\<lparr>submissionOrder := sort_in_place (submissionOrder s)\<rparr>"
  have a: "snd (getSubmissionsInOrder s) = ?s'"
    by (rule snd_getSubmissionsInOrder)
  have b: "snd (getGracePeriodSubmissions s) = ?s'"
    by (rule snd_getGracePeriodSubmissions)
  have c: "?s' = s" if "sorted (map entry_timestamp (submissionOrder s))"
    using that by (simp add: sort_in_place_def sort_key_id_if_sorted)
  have d: "getSubmissionsInOrder ?s' = getSubmissionsInOrder s"
    by (simp add: getSubmissionsInOrder_def Let_def)
  have e: "getGracePeriodSubmissions ?s' = getGracePeriodSubmissions s"
    by (simp add: getGracePeriodSubmissions_def Let_def)
  have f: "results ops ?s' = results ops s"
    by (rule results_same_view) (rule same_view_sorted)
  show ?thesis
    using c by (simp only: a b d e f) simp
qed

theorem accessors_sort_order_in_place_witness:
  "sorted (map entry_timestamp (submissionOrder round_in_order)) \<and>
   snd (getSubmissionsInOrder round_in_order) = round_in_order \<and>
   snd (getGracePeriodSubmissions round_in_order) = round_in_order \<and>
   submissionOrder (snd (getGracePeriodSubmissions round_out_of_order)) =
     [OrderEntry ''user-1'' 10, OrderEntry ''user-3'' 30]"
  using accessors_sort_order_in_place [of round_in_order "[]" "''user-1''"]
        accessors_sort_order_in_place [of round_out_of_order "[]" "''user-1''"]
  by (simp add: round_in_order_def round_out_of_order_def sm_defs new_StateManager_def
      hasSubmitted_def Map_has_def time_value_def sort_in_place_def)

text \<open>
  With timestamps recorded out of order, reading the submissions in order permutes the
  order array.
\<close>

theorem getSubmissionsInOrder_reorders_the_order_list:
  "submissionOrder round_out_of_order = [OrderEntry ''user-3'' 30, OrderEntry ''user-1'' 10] \<and>
   submissionOrder (snd (getSubmissionsInOrder round_out_of_order)) =
     [OrderEntry ''user-1'' 10, OrderEntry ''user-3'' 30] \<and>
   snd (getSubmissionsInOrder round_out_of_order) \<noteq> round_out_of_order"
proof -
  have 1: "submissionOrder round_out_of_order =
      [OrderEntry ''user-3'' 30, OrderEntry ''user-1'' 10]"
    by (simp add: round_out_of_order_def sm_defs new_StateManager_def hasSubmitted_def
        Map_has_def time_value_def)
  have 2: "submissionOrder (snd (getSubmissionsInOrder round_out_of_order)) =
      [OrderEntry ''user-1'' 10, OrderEntry ''user-3'' 30]"
    by (simp add: snd_getSubmissionsInOrder 1 sort_in_place_def)
  from 1 2 show ?thesis by auto
qed

section \<open>Properties of the lifecycle machine\<close>

lemma transition_eq:
  "transition target ctx now m =
     (if allowed (currentState m) target then []
      else [Invalid_state_transition (currentState m) target],
      m\<lparr>transitionCount := transitionCount m + 1,
        stateHistory := stateHistory m @
          [\<lparr>t_from = currentState m, t_to = target, t_timestamp = now,
            t_transitionNumber = transitionCount m + 1, t_context = ctx\<rparr>],
        currentState := target\<rparr>)"
  by (simp add: transition_def allowed_def Let_def)

lemma exec_machine_op_history:
  assumes "exec_machine_op op m = (w, m')"
  shows "\<exists>r. stateHistory m' = stateHistory m @ [r] \<and> t_from r = currentState m \<and>
           t_to r = currentState m' \<and>
           (allowed (t_from r) (t_to r) \<or> Invalid_state_transition (t_from r) (t_to r) \<in> set w)"
  using assms by (cases op) (auto simp: transition_eq machine_reset_def split: if_splits)

lemma run_machine_history:
  assumes "run_machine ops m = (ws, m')" and "r \<in> set (stateHistory m')"
  shows "r \<in> set (stateHistory m) \<or> allowed (t_from r) (t_to r) \<or>
         Invalid_state_transition (t_from r) (t_to r) \<in> set ws"
  using assms
proof (induction ops arbitrary: m ws)
  case Nil
  then show ?case by simp
next
  case (Cons op ops)
  obtain w m1 where step: "exec_machine_op op m = (w, m1)"
    by (cases "exec_machine_op op m")
  obtain ws1 where rest: "run_machine ops m1 = (ws1, m')" and ws: "ws = w @ ws1"
    using Cons.prems(1) step by (auto split: prod.splits)
  from Cons.IH [OF rest Cons.prems(2)]
  consider "r \<in> set (stateHistory m1)" | "allowed (t_from r) (t_to r)"
    | "Invalid_state_transition (t_from r) (t_to r) \<in> set ws1"
    by blast
  then show ?case
  proof cases
    case 1
    from exec_machine_op_history [OF step] obtain r' where
      h: "stateHistory m1 = stateHistory m @ [r']" and
      ok: "allowed (t_from r') (t_to r') \<or> Invalid_state_transition (t_from r') (t_to r') \<in> set w"
      by blast
    from 1 h have "r \<in> set (stateHistory m) \<or> r = r'" by auto
    with ok ws show ?thesis by auto
  next
    case 2
    then show ?thesis by simp
  next
    case 3
    with ws show ?thesis by simp
  qed
qed

text \<open>
  C1, amended. \<open>transition\<close> always appends the record from the current state to the
  target and makes the target the current state; when the pair is not in the table of
  allowed transitions it writes a warning as well. Hence after every sequence of calls on
  a new machine, each record of the history has its pair in the allowed set or was warned
  about.
\<close>

theorem transition_warns_and_proceeds:
  "transition target ctx now m =
     (if allowed (currentState m) target then []
      else [Invalid_state_transition (currentState m) target],
      m\<lparr>transitionCount := transitionCount m + 1,
        stateHistory := stateHistory m @
          [\<lparr>t_from = currentState m, t_to = target, t_timestamp = now,
            t_transitionNumber = transitionCount m + 1, t_context = ctx\<rparr>],
        currentState := target\<rparr>) \<and>
   (\<forall>r\<in>set (stateHistory (snd (run_machine ops new_StateMachineLogger))).
      allowed (t_from r) (t_to r) \<or>
      Invalid_state_transition (t_from r) (t_to r)
        \<in> set (fst (run_machine ops new_StateMachineLogger)))"
proof -
  have "allowed (t_from r) (t_to r) \<or>
        Invalid_state_transition (t_from r) (t_to r)
          \<in> set (fst (run_machine ops new_StateMachineLogger))"
    if "r \<in> set (stateHistory (snd (run_machine ops new_StateMachineLogger)))" for r
    using run_machine_history [of ops new_StateMachineLogger _ _ r] that
    by (cases "run_machine ops new_StateMachineLogger") (auto simp: new_StateMachineLogger_def)
  then show ?thesis
    by (simp only: transition_eq) blast
qed

theorem transition_warns_and_proceeds_witness:
  "run_machine [Transition ACTIVE NoContext 1, Transition TRANSITIONING NoContext 2,
      MachineReset 3] new_StateMachineLogger =
     ([Invalid_state_transition ACTIVE TRANSITIONING],
      \<lparr>currentState = IDLE,
       stateHistory =
         [\<lparr>t_from = IDLE, t_to = ACTIVE, t_timestamp = 1, t_transitionNumber = 1,
           t_context = NoContext\<rparr>,
          \<lparr>t_from = ACTIVE, t_to = TRANSITIONING, t_timestamp = 2, t_transitionNumber = 2,
           t_context = NoContext\<rparr>,
          \<lparr>t_from = TRANSITIONING, t_to = IDLE, t_timestamp = 3, t_transitionNumber = 3,
           t_context = ReasonContext ''Manual reset''\<rparr>],
       transitionCount = 3\<rparr>) \<and>
   allowed IDLE ACTIVE \<and> \<not> allowed ACTIVE TRANSITIONING \<and> allowed TRANSITIONING IDLE"
  using transition_warns_and_proceeds
    [of ACTIVE NoContext 1 new_StateMachineLogger
        "[Transition ACTIVE NoContext 1, Transition TRANSITIONING NoContext 2, MachineReset 3]"]
  by (simp add: transition_def machine_reset_def new_StateMachineLogger_def allowed_def)

text \<open>
  From \<open>IDLE\<close> the target \<open>LOCKED\<close> is not allowed; the transition is performed and
  recorded all the same.
\<close>

theorem invalid_transition_is_performed:
  "\<not> allowed (currentState new_StateMachineLogger) LOCKED \<and>
   currentState new_StateMachineLogger = IDLE \<and>
   currentState (snd (transition LOCKED NoContext 0 new_StateMachineLogger)) = LOCKED \<and>
   stateHistory (snd (transition LOCKED NoContext 0 new_StateMachineLogger)) =
     [\<lparr>t_from = IDLE, t_to = LOCKED, t_timestamp = 0, t_transitionNumber = 1,
       t_context = NoContext\<rparr>]"
  by (simp add: transition_def new_StateMachineLogger_def allowed_def)

section \<open>Properties of the question generator\<close>

subsection \<open>validate\<close>

lemma validate_cases:
  "validate v c =
     (v \<noteq> Null \<and> v \<noteq> Undefined \<and> v \<noteq> Str [] \<and>
      (case Number v of Fin x \<Rightarrow> \<bar>x - of_int c\<bar> < 1 / 10000 | _ \<Rightarrow> False))"
  by (cases "Number v") (auto simp: validate_def Let_def)

lemma trim_blank: "trim ''   '' = []"
  by (simp add: trim_def is_StrWhiteSpaceChar_def)

lemma validate_blank: "validate (Str ''   '') 0 = True"
  by (simp add: validate_def StringToNumber_def trim_blank)

lemma Number_blank: "Number (Str ''   '') = Fin 0"
  by (simp add: StringToNumber_def trim_blank)

lemma validate_99: "validate (Str ''99'') 0 = False"
  by (simp add: validate_def StringToNumber_def trim_def is_StrWhiteSpaceChar_def
   parse_NonDecimalIntegerLiteral_def parse_StrDecimalLiteral_def parse_StrUnsignedDecimalLiteral_def
   is_digit_def digit_of_def parse_ExponentPart_def digits_value_def pow10_def)

lemma validate_0: "validate (Str ''0'') 0 = True"
  by (simp add: validate_def StringToNumber_def trim_def is_StrWhiteSpaceChar_def
   parse_NonDecimalIntegerLiteral_def parse_StrDecimalLiteral_def parse_StrUnsignedDecimalLiteral_def
   is_digit_def digit_of_def parse_ExponentPart_def digits_value_def pow10_def)

lemmas handler_defs = handleAnswerSubmission_def recordSubmission_def setQuestion_def
  new_StateManager_def hasSubmitted_def Map_has_def time_value_def getCurrentQuestion_def
  attemptWin_def transition_def getSubmission_def new_StateMachineLogger_def
  WINNER_DISPLAY_DURATION_def Let_def

text \<open>
  C5. \<open>validate\<close> rejects the empty string, but a string of white space only passes that
  test; \<open>Number\<close> converts it to \<open>0\<close>, and against the canonical answer \<open>0\<close> it is
  accepted. On the question \<open>51 - 51\<close> a submission of three spaces is declared the winner.
\<close>

theorem blank_answer_wins_round:
  "q_question question0 = ''51 - 51'' \<and> q_answer question0 = 0 \<and>
   validate (Str ''   '') (q_answer question0) = True \<and>
   fst (handleAnswerSubmission ''u1'' (Str ''   '') 1700000000500 1700000000500 hub0) =
     [Emit_all (winner_declared ''u1'' 0 ''51 - 51'' ''q_1700000000000_i'' 1700000000500 3000
        1700000000500),
      Emit_to ''u1'' (you_won ''Congratulations! You got it right first!'' 0 ''51 - 51''
        1700000000500),
      SetTimeout transition_to_TRANSITIONING 100,
      ClearTimeout_questionTimeout,
      Set_questionTimeout generateNewQuestion 3000]"
  by (simp add: handleAnswerSubmission_def hub0_def question0_def validate_blank
      recordSubmission_def setQuestion_def new_StateManager_def hasSubmitted_def Map_has_def
      time_value_def getCurrentQuestion_def attemptWin_def transition_def getSubmission_def
      new_StateMachineLogger_def WINNER_DISPLAY_DURATION_def Let_def)

subsection \<open>generate\<close>

lemma read_nat_snoc: "read_nat (s @ [c]) = 10 * read_nat s + (of_char c - 48)"
  by (simp add: read_nat_def)

lemma read_show_nat: "read_nat (show_nat n) = n"
proof (induction n rule: show_nat.induct)
  case (1 n)
  show ?case
  proof (cases "n < 10")
    case True
    then show ?thesis
      by (subst show_nat.simps) (simp add: read_nat_def)
  next
    case False
    have "n mod 10 < 10" by simp
    then have "(48 + n mod 10) mod 256 = 48 + n mod 10" by simp
    with False 1 show ?thesis
      by (subst show_nat.simps) (simp add: read_nat_snoc)
  qed
qed

lemma show_nat_inj: "show_nat a = show_nat b \<Longrightarrow> a = b"
  by (metis read_show_nat)

lemma underscore_not_digit: "(d::nat) < 10 \<Longrightarrow> char_of (48 + d) \<noteq> CHR ''_''"
proof
  assume d: "d < 10" and "char_of (48 + d) = CHR ''_''"
  then have "(of_char (char_of (48 + d)) :: nat) = of_char CHR ''_''" by simp
  with d show False by simp
qed

lemma show_nat_no_underscore: "CHR ''_'' \<notin> set (show_nat n)"
proof (induction n rule: show_nat.induct)
  case (1 n)
  show ?case
  proof (cases "n < 10")
    case True
    then show ?thesis
      by (subst show_nat.simps) (simp add: underscore_not_digit [symmetric] eq_commute)
  next
    case False
    have "n mod 10 < 10" by simp
    then have "char_of (48 + n mod 10) \<noteq> CHR ''_''" by (rule underscore_not_digit)
    with False 1 show ?thesis
      by (subst show_nat.simps) auto
  qed
qed

lemma split_at_separator:
  "c \<notin> set a \<Longrightarrow> c \<notin> set b \<Longrightarrow> a @ c # x = b @ c # y \<Longrightarrow> a = b \<and> x = y"
proof (induction a arbitrary: b)
  case Nil
  then show ?case by (cases b) auto
next
  case (Cons h a)
  then show ?case by (cases b) auto
qed

lemma make_questionId_eq_iff:
  "make_questionId R t1 r1 = make_questionId R t2 r2 \<longleftrightarrow>
     t1 = t2 \<and> substr 2 9 (R r1) = substr 2 9 (R r2)"
proof
  assume "make_questionId R t1 r1 = make_questionId R t2 r2"
  then have "show_nat t1 @ CHR ''_'' # substr 2 9 (R r1) =
             show_nat t2 @ CHR ''_'' # substr 2 9 (R r2)"
    by (simp add: make_questionId_def)
  then have "show_nat t1 = show_nat t2 \<and> substr 2 9 (R r1) = substr 2 9 (R r2)"
    by (rule split_at_separator [OF show_nat_no_underscore show_nat_no_underscore])
  then show "t1 = t2 \<and> substr 2 9 (R r1) = substr 2 9 (R r2)"
    by (auto dest: show_nat_inj)
next
  assume "t1 = t2 \<and> substr 2 9 (R r1) = substr 2 9 (R r2)"
  then show "make_questionId R t1 r1 = make_questionId R t2 r2"
    by (simp add: make_questionId_def)
qed

lemma digit_chars: "char_of (48::nat) = CHR ''0''" "char_of (49::nat) = CHR ''1''"
  "char_of (50::nat) = CHR ''2''" "char_of (51::nat) = CHR ''3''"  "char_of (52::nat) = CHR ''4''"
  "char_of (53::nat) = CHR ''5''" "char_of (54::nat) = CHR ''6''"  "char_of (55::nat) = CHR ''7''"
  "char_of (56::nat) = CHR ''8''" "char_of (57::nat) = CHR ''9''"
  by (simp_all add: char_of_def bit_0)

lemma show_nat_51: "show_nat 51 = ''51''"
  by (simp add: show_nat.simps digit_chars)

lemma show_nat_T: "show_nat 1700000000000 = ''1700000000000''"
  by (simp add: show_nat.simps digit_chars)

lemma char_i: "char_of (105::nat) = CHR ''i''"
  by (simp add: char_of_def bit_0)

lemma fraction36_zero: "fraction36 n 0 = []"
  by (cases n) simp_all

lemma fraction36_half: "fraction36 9 (1 / 2) = ''i''"
proof -
  have "fraction36 (Suc 8) (1 / 2) = ''i''"
    unfolding fraction36.simps by (simp add: fraction36_zero digit36_def char_i)
  then show ?thesis by simp
qed

lemma snth_3: "s !! 3 = shd (stl (stl (stl s)))"
  by (simp add: eval_nat_numeral)

lemma snth_5: "s !! 5 = shd (stl (stl (stl (stl (stl s)))))"
  by (simp add: eval_nat_numeral)

lemma generate_id:
  assumes "fst (generate R d rng clock) = Inr q"
  shows "q_id q = make_questionId R (shd clock) (id_draw q rng)"
proof (cases "fst (getRandomOperator d (stl (stl rng)))")
  case None
  with assms show ?thesis
    by (simp add: generate_def getRandomNumber_def Let_def split: prod.splits)
next
  case (Some operator)
  show ?thesis
  proof (cases "op_symbol operator = ''*''")
    case True
    with assms Some show ?thesis
      by (auto simp: generate_def getRandomNumber_def getRandomOperator_def Let_def
          id_draw_def snth_5 split: prod.splits)
  next
    case False
    with assms Some show ?thesis
      by (auto simp: generate_def getRandomNumber_def getRandomOperator_def Let_def
          id_draw_def snth_3 split: prod.splits)
  qed
qed

lemma floor_three_halves: "\<lfloor>3 / 2 :: rat\<rfloor> = 1"
  by (rule floor_unique) simp_all

lemma medium_operator_half:
  "getRandomOperator medium (sconst (1 / 2)) =
     (Some (Operator ''-'' ''subtraction'' (\<lambda>a b. a - b) easy), sconst (1 / 2))"
  by (simp add: getRandomOperator_def operators_def Let_def floor_three_halves)

lemma generate_half:
  "generate expansion36 medium (sconst (1 / 2)) (sconst 1700000000000) =
     (Inr question0, sconst (1 / 2), sconst 1700000000000)"
  by (simp add: generate_def getRandomNumber_def medium_operator_half Let_def
      make_questionId_def show_nat_T show_int_def show_nat_51 substr_def
      expansion36_def fraction36_half question0_def)

text \<open>
  What the identifier depends on: the identifiers of two generated questions are equal
  exactly when the two calls read the same value of the clock and drew random numbers
  whose radix-36 rendering has the same characters after \<open>0.\<close>, up to nine. Nothing else
  enters the identifier; there is no counter.
\<close>

lemma question_ids_differ_unless_clock_and_suffix_agree:
  assumes "fst (generate R d1 rng1 clock1) = Inr q1"
    and "fst (generate R d2 rng2 clock2) = Inr q2"
  shows "q_id q1 = q_id q2 \<longleftrightarrow>
           shd clock1 = shd clock2 \<and>
           substr 2 9 (R (id_draw q1 rng1)) = substr 2 9 (R (id_draw q2 rng2))"
  using assms by (simp add: generate_id make_questionId_eq_iff)

lemma question_ids_differ_unless_clock_and_suffix_agree_witness:
  "fst first_call = Inr question0 \<and> fst second_call = Inr question0 \<and>
   (q_id question0 = q_id question0 \<longleftrightarrow>
      shd (sconst (1700000000000::nat)) = shd (sconst (1700000000000::nat)) \<and>
      substr 2 9 (expansion36 (id_draw question0 (sconst (1 / 2)))) =
      substr 2 9 (expansion36 (id_draw question0 (sconst (1 / 2)))))"
  using question_ids_differ_unless_clock_and_suffix_agree
    [of expansion36 medium "sconst (1 / 2)" "sconst 1700000000000" question0
        medium "sconst (1 / 2)" "sconst 1700000000000" question0]
  by (simp add: first_call_def second_call_def generate_half)

text \<open>
  C7. \<open>generate\<close> announces a unique question identifier (\<open>// Generate unique question ID\<close>)
  but builds it from one clock reading and one random outcome only. Two successive calls
  in one run that read the same millisecond and draw the same random outcomes return the
  same question, the identifier \<open>q_1700000000000_i\<close> included: identifiers do repeat.
\<close>

theorem same_clock_and_random_give_same_id:
  "fst first_call = Inr question0 \<and> fst second_call = Inr question0 \<and>
   q_id question0 = ''q_1700000000000_i''"
  by (simp add: first_call_def second_call_def generate_half question0_def)

section \<open>Properties of the submit-answer handler\<close>

lemma exec_op_keeps_submitted:
  "\<not> clears_round op \<Longrightarrow> hasSubmitted c s \<Longrightarrow> hasSubmitted c (snd (exec_op op s))"
  by (cases op) (auto simp: sm_defs hasSubmitted_def Map_has_set Let_def split: prod.splits)

lemma run_keeps_submitted:
  "\<forall>op\<in>set ops. \<not> clears_round op \<Longrightarrow> hasSubmitted c s \<Longrightarrow> hasSubmitted c (run ops s)"
  by (induction ops arbitrary: s) (simp_all add: exec_op_keeps_submitted)

lemma recordSubmission_Success_submitted:
  "fst (recordSubmission c a t s) = Inr (Success t') \<Longrightarrow>
     hasSubmitted c (snd (recordSubmission c a t s))"
  by (auto simp: recordSubmission_def hasSubmitted_def Map_has_set split: if_splits)

lemma handle_when_submitted:
  assumes "hasSubmitted c (stateManager hub)"
    and "a \<noteq> Undefined" and "a \<noteq> Null" and "a \<noteq> Str []"
  shows "handleAnswerSubmission c a t now hub =
     ([Emit_to c
         (if isLocked (stateManager hub)
          then submission_rejected question_locked ''This question already has a winner'' t
          else submission_rejected already_submitted
                 ''You have already submitted an answer for this question'' t)],
      hub)"
  using assms by (simp add: handleAnswerSubmission_def recordSubmission_def)

lemma stateManager_after_wrong:
  "stateManager hub_after_wrong =
     snd (recordSubmission ''u1'' (Str ''99'') 1700000000100 (setQuestion question0 new_StateManager))"
  by (simp add: hub_after_wrong_def hub0_def question0_def validate_99 handler_defs)

lemma stateManager_after_win:
  "stateManager hub_after_win =
     run [RecordSubmission ''u2'' (Str ''0'') 1700000000200, AttemptWin ''u2'' True]
       (stateManager hub_after_wrong)"
  by (simp add: hub_after_win_def stateManager_after_wrong question0_def validate_0 handler_defs)

text \<open>
  C6, amended. Once a submission of a connection has been recorded in a round, every
  further \<open>submit-answer\<close> of that connection in the same round that carries a non-empty
  answer is answered with \<open>submission-rejected\<close> and changes nothing: with reason
  \<open>already-submitted\<close> while the round is not locked, and with reason \<open>question-locked\<close> once
  it is.
\<close>

theorem second_submission_rejected:
  assumes "fst (recordSubmission c a t s) = Inr (Success t)"
    and "\<forall>op\<in>set ops. \<not> clears_round op"
    and "stateManager hub = run ops (snd (recordSubmission c a t s))"
    and "a' \<noteq> Undefined" and "a' \<noteq> Null" and "a' \<noteq> Str []"
  shows "handleAnswerSubmission c a' t' now hub =
     ([Emit_to c
         (if isLocked (stateManager hub)
          then submission_rejected question_locked ''This question already has a winner'' t'
          else submission_rejected already_submitted
                 ''You have already submitted an answer for this question'' t')],
      hub)"
proof -
  have "hasSubmitted c (snd (recordSubmission c a t s))"
    using assms(1) by (rule recordSubmission_Success_submitted)
  then have "hasSubmitted c (stateManager hub)"
    using assms(2,3) by (simp add: run_keeps_submitted)
  then show ?thesis
    using assms(4-6) by (rule handle_when_submitted)
qed

theorem second_submission_rejected_witness:
  "fst (recordSubmission ''u1'' (Str ''99'') 1700000000100
      (setQuestion question0 new_StateManager)) = Inr (Success 1700000000100) \<and>
   handleAnswerSubmission ''u1'' (Str ''0'') 1700000000150 1700000000150 hub_after_wrong =
     ([Emit_to ''u1'' (submission_rejected already_submitted
         ''You have already submitted an answer for this question'' 1700000000150)],
      hub_after_wrong) \<and>
   handleAnswerSubmission ''u1'' (Str ''0'') 1700000000300 1700000000300 hub_after_win =
     ([Emit_to ''u1'' (submission_rejected question_locked
         ''This question already has a winner'' 1700000000300)],
      hub_after_win)"
  using second_submission_rejected
      [of "''u1''" "Str ''99''" 1700000000100 "setQuestion question0 new_StateManager" "[]"
          hub_after_wrong "Str ''0''" 1700000000150 1700000000150]
    second_submission_rejected
      [of "''u1''" "Str ''99''" 1700000000100 "setQuestion question0 new_StateManager"
          "[RecordSubmission ''u2'' (Str ''0'') 1700000000200, AttemptWin ''u2'' True]"
          hub_after_win "Str ''0''" 1700000000300 1700000000300]
  by (simp add: stateManager_after_win stateManager_after_wrong recordSubmission_def
      setQuestion_def new_StateManager_def hasSubmitted_def Map_has_def time_value_def
      attemptWin_def)

text \<open>
  After \<open>u2\<close> has won, a second submission of \<open>u1\<close> is rejected with \<open>question-locked\<close>, the
  check of the lock coming first.
\<close>

theorem resubmission_after_lock_is_question_locked:
  "fst (handleAnswerSubmission ''u1'' (Str ''99'') 1700000000100 1700000000100 hub0) =
     [Emit_to ''u1'' (submission_result False False ''Incorrect answer. Keep trying!''
        1700000000100)] \<and>
   hasSubmitted ''u1'' (stateManager hub_after_win) \<and>
   fst (handleAnswerSubmission ''u1'' (Str ''0'') 1700000000300 1700000000300 hub_after_win) =
     [Emit_to ''u1'' (submission_rejected question_locked ''This question already has a winner''
        1700000000300)]"
  by (simp add: stateManager_after_win stateManager_after_wrong hub0_def question0_def
      validate_99 handler_defs)

end
